theory Spec2Isabelle
  imports Complex_Main "HOL-Library.AList"
begin

section \<open>Amortization engine of \<^verbatim>\<open>src/mortgage.py\<close>\<close>

text \<open>
  The module computes level payments and amortization schedules for a fixed-rate loan
  quoted with semi-annual compounding. Python \<^verbatim>\<open>float\<close> values are modelled as
  mathematical reals (\<^typ>\<open>real\<close>): arithmetic is exact, there is no rounding, no
  overflow and no NaN. Python \<^verbatim>\<open>int\<close> values are \<^typ>\<open>int\<close>. Every exception the
  code can raise is a value \<open>Inl e\<close> of the result type \<open>error + 'a\<close>.
\<close>

subsection \<open>Errors and the arithmetic of Python that can raise\<close>

datatype error =
    ValueError string
  | KeyError string
  | ZeroDivisionError string
  | ComplexResult
    \<comment> \<open>a negative base raised to a non-integral power: Python leaves the floats and
        returns a complex number, which the model does not follow any further\<close>

text \<open>True division \<^verbatim>\<open>a / b\<close>: raises on a zero divisor.\<close>

definition py_truediv :: "real \<Rightarrow> real \<Rightarrow> error + real" where
  "py_truediv a b =
     (if b = 0 then Inl (ZeroDivisionError ''division by zero'') else Inr (a / b))"

text \<open>
  The power \<^verbatim>\<open>x ** y\<close> on floats (an \<^verbatim>\<open>int\<close> exponent is converted to a float
  first): anything to the power zero is one, zero to a negative power raises, a negative
  base is only defined for an integral exponent.
\<close>

definition py_pow :: "real \<Rightarrow> real \<Rightarrow> error + real" where
  "py_pow x y =
     (if y = 0 then Inr 1
      else if x = 0 then
        (if y < 0 then Inl (ZeroDivisionError ''zero to a negative power'') else Inr 0)
      else if x < 0 then
        (if of_int \<lfloor>y\<rfloor> = y then Inr (x powi \<lfloor>y\<rfloor>) else Inl ComplexResult)
      else Inr (x powr y))"



subsection \<open>\<^verbatim>\<open>MortgageParams\<close>\<close>

record MortgageParams =
  principal :: real
  quoted_rate_percent :: real
  amort_years :: int
  term_years :: int


text \<open>The checks are in \<^verbatim>\<open>validate\<close>, in this order.\<close>

definition validate :: "MortgageParams \<Rightarrow> error + unit" where
  "validate self =
     (if principal self \<le> 0 then Inl (ValueError ''Principal must be positive.'')
      else if quoted_rate_percent self < 0 then
        Inl (ValueError ''Quoted rate percent must be non-negative.'')
      else if amort_years self \<le> 0 then
        Inl (ValueError ''Amortization years must be positive.'')
      else if term_years self \<le> 0 then Inl (ValueError ''Term years must be positive.'')
      else if term_years self > amort_years self then
        Inl (ValueError ''Term years cannot exceed amortization years.'')
      else Inr ())"

subsection \<open>\<^verbatim>\<open>MortgageCalculator\<close>\<close>

definition ear_from_semi_annual_quote :: "real \<Rightarrow> real" where
  "ear_from_semi_annual_quote quoted_rate_percent' =
     (let j = quoted_rate_percent' / 100 in (1 + j / 2) ^ 2 - 1)"

definition pva :: "real \<Rightarrow> int \<Rightarrow> error + real" where
  "pva rate n =
     (if rate = 0 then Inr (of_int n)
      else case py_pow (1 + rate) (of_int (- n)) of
             Inl e \<Rightarrow> Inl e
           | Inr v \<Rightarrow> py_truediv (1 - v) rate)"

definition periodic_rate :: "real \<Rightarrow> int \<Rightarrow> error + real" where
  "periodic_rate ear m =
     (case py_truediv 1 (of_int m) of
        Inl e \<Rightarrow> Inl e
      | Inr ex \<Rightarrow>
          (case py_pow (1 + ear) ex of
             Inl e \<Rightarrow> Inl e
           | Inr v \<Rightarrow> Inr (v - 1)))"

definition level_payment :: "real \<Rightarrow> real \<Rightarrow> int \<Rightarrow> int \<Rightarrow> error + real" where
  "level_payment principal' quoted_rate_percent' amort_years' m =
     (let ear = ear_from_semi_annual_quote quoted_rate_percent'
      in case periodic_rate ear m of
           Inl e \<Rightarrow> Inl e
         | Inr r \<Rightarrow>
             (let n = amort_years' * m
              in case pva r n of
                   Inl e \<Rightarrow> Inl e
                 | Inr f \<Rightarrow> py_truediv principal' f))"

subsection \<open>\<^verbatim>\<open>MortgageSchedule\<close>\<close>

definition FREQS :: "(string \<times> int \<times> string) list" where
  "FREQS =
     [(''monthly'', 12, ''Monthly''),
      (''semi_monthly'', 24, ''Semi-monthly''),
      (''bi_weekly'', 26, ''Bi-weekly''),
      (''weekly'', 52, ''Weekly''),
      (''rapid_biweekly'', 26, ''Rapid Bi-weekly''),
      (''rapid_weekly'', 52, ''Rapid Weekly'')]"

text \<open>
  The object built by \<^verbatim>\<open>__init__\<close>: the parameters, \<^verbatim>\<open>_ear\<close> and
  \<^verbatim>\<open>_standard_monthly_pmt\<close>.
\<close>

record MortgageSchedule =
  params :: MortgageParams
  ear_cached :: real
  standard_monthly_pmt :: real

definition MortgageSchedule_init :: "MortgageParams \<Rightarrow> error + MortgageSchedule" where
  "MortgageSchedule_init params' =
     (case validate params' of
        Inl e \<Rightarrow> Inl e
      | Inr _ \<Rightarrow>
          (let ear = ear_from_semi_annual_quote (quoted_rate_percent params')
           in case level_payment (principal params') (quoted_rate_percent params')
                     (amort_years params') 12 of
                Inl e \<Rightarrow> Inl e
              | Inr pmt \<Rightarrow>
                  Inr \<lparr>params = params', ear_cached = ear, standard_monthly_pmt = pmt\<rparr>))"




text \<open>One row of the data frame, and the frame with its two attributes.\<close>

record schedule_row =
  Period :: int
  StartBalance :: real
  Interest :: real
  Payment :: real
  EndBalance :: real

record schedule_df =
  rows :: "schedule_row list"
  FrequencyLabel :: string
  PaymentsPerYear :: int

text \<open>
  The payment chosen by \<^verbatim>\<open>build_schedule_df\<close> for a key with \<open>m\<close> payments per year:
  a fraction of the cached monthly payment for the two rapid keys, the level payment
  otherwise.
\<close>

definition schedule_payment :: "MortgageSchedule \<Rightarrow> string \<Rightarrow> int \<Rightarrow> error + real" where
  "schedule_payment self freq_key m =
     (if freq_key = ''rapid_biweekly'' \<or> freq_key = ''rapid_weekly'' then
        Inr (standard_monthly_pmt self / (if freq_key = ''rapid_biweekly'' then 2 else 4))
      else level_payment (principal (params self)) (quoted_rate_percent (params self))
             (amort_years (params self)) m)"

text \<open>
  The \<^verbatim>\<open>for t in range(1, n_term + 1)\<close> loop, as a recursion over the periods still to
  run: the capped branch records its row and stops, the normal branch records its row and
  stops when the new balance is at most one cent.
\<close>

fun schedule_loop :: "real \<Rightarrow> real \<Rightarrow> real \<Rightarrow> int list \<Rightarrow> schedule_row list" where
  "schedule_loop payment r balance [] = []"
| "schedule_loop payment r balance (t # ts) =
     (let start = balance;
          interest = start * r;
          principal_repay = payment - interest
      in if principal_repay > start then
           [\<lparr>Period = t, StartBalance = start, Interest = interest,
             Payment = start + interest, EndBalance = 0\<rparr>]
         else
           (let end' = start - principal_repay
            in \<lparr>Period = t, StartBalance = start, Interest = interest,
                 Payment = payment, EndBalance = end'\<rparr>
               # (if end' \<le> 1 / 100 then [] else schedule_loop payment r end' ts)))"

definition build_schedule_df :: "MortgageSchedule \<Rightarrow> string \<Rightarrow> error + schedule_df" where
  "build_schedule_df self freq_key =
     (case map_of FREQS freq_key of
        None \<Rightarrow> Inl (KeyError (''Unknown frequency: '' @ freq_key))
      | Some (m, label) \<Rightarrow>
          (case periodic_rate (ear_cached self) m of
             Inl e \<Rightarrow> Inl e
           | Inr r \<Rightarrow>
               (case schedule_payment self freq_key m of
                  Inl e \<Rightarrow> Inl e
                | Inr payment \<Rightarrow>
                    (let n_term = term_years (params self) * m
                     in Inr \<lparr>rows = schedule_loop payment r (principal (params self))
                                     [1..n_term],
                             FrequencyLabel = label, PaymentsPerYear = m\<rparr>))))"

subsection \<open>Two concrete loans\<close>

text \<open>
  An interest-free loan of 1200 over one year, and a loan of 1 whose quote makes every
  periodic rate a whole number: \<open>1 + j / 2 = 2 ^ 78\<close>, so the monthly rate is
  \<open>2 ^ 13 - 1\<close> and the bi-weekly rate is \<open>2 ^ 6 - 1\<close>.
\<close>

definition p_zero :: MortgageParams where
  "p_zero = \<lparr>principal = 1200, quoted_rate_percent = 0, amort_years = 1, term_years = 1\<rparr>"

definition s_zero :: MortgageSchedule where
  "s_zero = \<lparr>params = p_zero, ear_cached = 0, standard_monthly_pmt = 100\<rparr>"

definition mk_row :: "int \<Rightarrow> real \<Rightarrow> real \<Rightarrow> real \<Rightarrow> real \<Rightarrow> schedule_row" where
  "mk_row t s i p e = \<lparr>Period = t, StartBalance = s, Interest = i, Payment = p, EndBalance = e\<rparr>"

definition rows_zero_monthly :: "schedule_row list" where
  "rows_zero_monthly =
     [mk_row 1 1200 0 100 1100, mk_row 2 1100 0 100 1000, mk_row 3 1000 0 100 900,
      mk_row 4 900 0 100 800, mk_row 5 800 0 100 700, mk_row 6 700 0 100 600,
      mk_row 7 600 0 100 500, mk_row 8 500 0 100 400, mk_row 9 400 0 100 300,
      mk_row 10 300 0 100 200, mk_row 11 200 0 100 100, mk_row 12 100 0 100 0]"

definition big_quote :: real where
  "big_quote = 200 * (2 ^ 78 - 1)"

definition big_ear :: real where
  "big_ear = 2 ^ 156 - 1"

definition big_pmt :: real where
  "big_pmt = 8191 / (1 - 1 / 8192 ^ 12)"

definition p_big :: MortgageParams where
  "p_big = \<lparr>principal = 1, quoted_rate_percent = big_quote, amort_years = 1, term_years = 1\<rparr>"

definition s_big :: MortgageSchedule where
  "s_big = \<lparr>params = p_big, ear_cached = big_ear, standard_monthly_pmt = big_pmt\<rparr>"

section \<open>Properties\<close>

subsection \<open>The arithmetic on validated parameters\<close>

lemma py_pow_pos: "0 < x \<Longrightarrow> py_pow x y = Inr (x powr y)"
  by (simp add: py_pow_def)

lemma py_pow_int: "x \<noteq> 0 \<or> k \<ge> 0 \<Longrightarrow> py_pow x (of_int k) = Inr (x powi k)"
  by (auto simp add: py_pow_def powr_real_of_int' power_int_0_left_if)

lemma pva_formula:
  "rate \<noteq> 0 \<Longrightarrow> 1 + rate \<noteq> 0 \<or> n \<le> 0 \<Longrightarrow>
     pva rate n = Inr ((1 - (1 + rate) powi (- n)) / rate)"
  using py_pow_int [of "1 + rate" "- n"] by (auto simp add: pva_def py_truediv_def)

lemma periodic_rate_ok:
  "0 \<le> ear \<Longrightarrow> 0 < m \<Longrightarrow>
     periodic_rate ear m = Inr ((1 + ear) powr (1 / of_int m) - 1)"
  by (simp add: periodic_rate_def py_truediv_def py_pow_pos)

lemma root_ge_one: "1 \<le> (b::real) \<Longrightarrow> 0 < (m::int) \<Longrightarrow> 1 \<le> b powr (1 / of_int m)"
  by (rule ge_one_powr_ge_zero) simp_all

lemma ear_nonneg: "0 \<le> q \<Longrightarrow> 0 \<le> ear_from_semi_annual_quote q"
  by (simp add: ear_from_semi_annual_quote_def)

lemma pva_pos:
  assumes "0 \<le> r" "0 < n"
  shows "\<exists>f. pva r n = Inr f \<and> 0 < f \<and> f * r \<le> 1"
proof (cases "r = 0")
  case True
  then show ?thesis using assms by (simp add: pva_def)
next
  case False
  with assms have r: "0 < r" by simp
  let ?v = "(1 + r) powi (- n)"
  have v: "0 < ?v" using r by (simp add: power_int_def)
  have "(1 + r) powi n > 1" using r assms(2)
    by (simp add: power_int_def one_less_power)
  then have v1: "?v < 1"
    by (simp add: power_int_minus inverse_less_1_iff)
  have "pva r n = Inr ((1 - ?v) / r)" using r by (simp add: pva_formula)
  moreover have "0 < (1 - ?v) / r" using v1 r by simp
  moreover have "(1 - ?v) / r * r \<le> 1" using v r by simp
  ultimately show ?thesis by blast
qed

lemma level_payment_ok:
  assumes "0 < P" "0 \<le> q" "0 < a" "0 < m"
  shows "\<exists>r L. periodic_rate (ear_from_semi_annual_quote q) m = Inr r \<and> 0 \<le> r
            \<and> level_payment P q a m = Inr L \<and> 0 < L \<and> P * r \<le> L"
proof -
  let ?ear = "ear_from_semi_annual_quote q"
  let ?r = "(1 + ?ear) powr (1 / of_int m) - 1"
  have pr: "periodic_rate ?ear m = Inr ?r"
    using assms ear_nonneg by (simp add: periodic_rate_ok)
  have r0: "0 \<le> ?r"
    using root_ge_one [of "1 + ?ear" m] ear_nonneg [OF assms(2)] assms(4) by simp
  have "0 < a * m" using assms by simp
  from pva_pos [OF r0 this] obtain f where f: "pva ?r (a * m) = Inr f" "0 < f" "f * ?r \<le> 1"
    by blast
  have lp: "level_payment P q a m = Inr (P / f)"
    using pr f(1,2) by (simp add: level_payment_def py_truediv_def)
  have "P * (f * ?r) \<le> P * 1" using f(3) assms(1) by (intro mult_left_mono) simp_all
  then have "P * ?r * f \<le> P" by (simp add: mult_ac)
  then have "P * ?r \<le> P / f" using f(2) by (simp add: pos_le_divide_eq)
  moreover have "0 < P / f" using assms(1) f(2) by simp
  ultimately show ?thesis using pr r0 lp by blast
qed

lemma root_power:
  assumes "0 < (b::real)" "0 < k"
  shows "(b powr (1 / of_nat k)) ^ k = b"
proof -
  have "(b powr (1 / of_nat k)) ^ k = (b powr (1 / of_nat k)) powr (of_nat k)"
    using assms(1) by (simp add: powr_realpow)
  also have "\<dots> = b powr ((1 / of_nat k) * of_nat k)" by (rule powr_powr)
  also have "\<dots> = b" using assms by simp
  finally show ?thesis .
qed

text \<open>
  Twice the bi-weekly rate, and four times the weekly rate, are at most the monthly rate:
  half (a quarter) of the monthly payment still covers the interest of a rapid period.
\<close>

lemma rapid_rate_2:
  assumes "1 \<le> (b::real)"
  shows "2 * (b powr (1 / 26) - 1) \<le> b powr (1 / 12) - 1"
proof (rule ccontr)
  let ?x = "b powr (1 / 26) - 1" and ?y = "b powr (1 / 12) - 1"
  assume "\<not> 2 * ?x \<le> ?y"
  then have lt: "?y < 2 * ?x" by simp
  have x0: "0 \<le> ?x" using ge_one_powr_ge_zero [OF assms, of "1 / 26"] by simp
  have y0: "0 \<le> ?y" using ge_one_powr_ge_zero [OF assms, of "1 / 12"] by simp
  have b0: "0 < b" using assms by simp
  have px: "(1 + ?x) ^ 26 = b" using root_power [OF b0, of 26] by simp
  have py: "(1 + ?y) ^ 12 = b" using root_power [OF b0, of 12] by simp
  have "(1 + ?y) ^ 12 < (1 + 2 * ?x) ^ 12"
    using lt y0 by (intro power_strict_mono) simp_all
  also have "1 + 2 * ?x \<le> (1 + ?x) ^ 2" using Bernoulli_inequality [of ?x 2] x0 by simp
  then have "(1 + 2 * ?x) ^ 12 \<le> ((1 + ?x) ^ 2) ^ 12"
    using x0 by (intro power_mono) simp_all
  also have "\<dots> = (1 + ?x) ^ 24" by (simp add: power_mult [symmetric])
  also have "\<dots> \<le> (1 + ?x) ^ 26" using x0 by (intro power_increasing) simp_all
  finally show False using px py by simp
qed

lemma rapid_rate_4:
  assumes "1 \<le> (b::real)"
  shows "4 * (b powr (1 / 52) - 1) \<le> b powr (1 / 12) - 1"
proof (rule ccontr)
  let ?x = "b powr (1 / 52) - 1" and ?y = "b powr (1 / 12) - 1"
  assume "\<not> 4 * ?x \<le> ?y"
  then have lt: "?y < 4 * ?x" by simp
  have x0: "0 \<le> ?x" using ge_one_powr_ge_zero [OF assms, of "1 / 52"] by simp
  have y0: "0 \<le> ?y" using ge_one_powr_ge_zero [OF assms, of "1 / 12"] by simp
  have b0: "0 < b" using assms by simp
  have px: "(1 + ?x) ^ 52 = b" using root_power [OF b0, of 52] by simp
  have py: "(1 + ?y) ^ 12 = b" using root_power [OF b0, of 12] by simp
  have "(1 + ?y) ^ 12 < (1 + 4 * ?x) ^ 12"
    using lt y0 by (intro power_strict_mono) simp_all
  also have "1 + 4 * ?x \<le> (1 + ?x) ^ 4" using Bernoulli_inequality [of ?x 4] x0 by simp
  then have "(1 + 4 * ?x) ^ 12 \<le> ((1 + ?x) ^ 4) ^ 12"
    using x0 by (intro power_mono) simp_all
  also have "\<dots> = (1 + ?x) ^ 48" by (simp add: power_mult [symmetric])
  also have "\<dots> \<le> (1 + ?x) ^ 52" using x0 by (intro power_increasing) simp_all
  finally show False using px py by simp
qed

subsection \<open>Validated parameters and the schedule object\<close>

lemma validate_Inr_iff:
  "validate p = Inr () \<longleftrightarrow>
     0 < principal p \<and> 0 \<le> quoted_rate_percent p \<and> 0 < amort_years p
     \<and> 0 < term_years p \<and> term_years p \<le> amort_years p"
  by (simp add: validate_def)

lemma init_Inr:
  assumes "MortgageSchedule_init p = Inr s"
  shows "validate p = Inr ()" "params s = p"
    "ear_cached s = ear_from_semi_annual_quote (quoted_rate_percent p)"
    "level_payment (principal p) (quoted_rate_percent p) (amort_years p) 12
       = Inr (standard_monthly_pmt s)"
  using assms by (auto simp add: MortgageSchedule_init_def Let_def split: sum.splits)


lemma FREQS_cases:
  assumes "map_of FREQS key = Some (m, label)"
  shows "(key = ''monthly'' \<and> m = 12) \<or> (key = ''semi_monthly'' \<and> m = 24)
     \<or> (key = ''bi_weekly'' \<and> m = 26) \<or> (key = ''weekly'' \<and> m = 52)
     \<or> (key = ''rapid_biweekly'' \<and> m = 26) \<or> (key = ''rapid_weekly'' \<and> m = 52)"
  using assms by (simp add: FREQS_def split: if_splits)

lemma schedule_payment_ok:
  assumes init: "MortgageSchedule_init p = Inr s"
    and key: "map_of FREQS key = Some (m, label)"
  shows "\<exists>r pay. periodic_rate (ear_cached s) m = Inr r \<and> schedule_payment s key m = Inr pay
           \<and> 0 \<le> r \<and> 0 < pay \<and> principal p * r \<le> pay"
proof -
  note i = init_Inr [OF init]
  from i(1) have v: "0 < principal p" "0 \<le> quoted_rate_percent p" "0 < amort_years p"
    by (simp_all add: validate_Inr_iff)
  let ?ear = "ear_from_semi_annual_quote (quoted_rate_percent p)"
  have e0: "0 \<le> ?ear" using v(2) by (rule ear_nonneg)
  from FREQS_cases [OF key] have m0: "0 < m" by auto
  from level_payment_ok [OF v m0] obtain r L where
    rL: "periodic_rate ?ear m = Inr r" "0 \<le> r"
      "level_payment (principal p) (quoted_rate_percent p) (amort_years p) m = Inr L"
      "0 < L" "principal p * r \<le> L"
    by blast
  from level_payment_ok [OF v, of 12] i(4) obtain r12 where
    r12: "periodic_rate ?ear 12 = Inr r12" "0 < standard_monthly_pmt s"
      "principal p * r12 \<le> standard_monthly_pmt s"
    by auto
  have r12_eq: "r12 = (1 + ?ear) powr (1 / 12) - 1"
    using r12(1) periodic_rate_ok [OF e0, of 12] by simp
  consider (biweekly) "key = ''rapid_biweekly''" "m = 26"
    | (weekly) "key = ''rapid_weekly''" "m = 52"
    | (ordinary) "key \<noteq> ''rapid_biweekly''" "key \<noteq> ''rapid_weekly''"
    using FREQS_cases [OF key] by auto
  then show ?thesis
  proof cases
    case biweekly
    have r_eq: "r = (1 + ?ear) powr (1 / 26) - 1"
      using rL(1) periodic_rate_ok [OF e0, of 26] biweekly by simp
    have "2 * r \<le> r12" using rapid_rate_2 [of "1 + ?ear"] e0 r_eq r12_eq by simp
    then have "principal p * (2 * r) \<le> principal p * r12"
      using v(1) by (intro mult_left_mono) simp_all
    then have "principal p * r \<le> standard_monthly_pmt s / 2" using r12(3) by simp
    moreover have "schedule_payment s key m = Inr (standard_monthly_pmt s / 2)"
      using biweekly by (simp add: schedule_payment_def)
    moreover have "0 < standard_monthly_pmt s / 2" using r12(2) by simp
    moreover have "periodic_rate (ear_cached s) m = Inr r" using rL(1) i(3) by simp
    ultimately show ?thesis using rL(2) by blast
  next
    case weekly
    have r_eq: "r = (1 + ?ear) powr (1 / 52) - 1"
      using rL(1) periodic_rate_ok [OF e0, of 52] weekly by simp
    have "4 * r \<le> r12" using rapid_rate_4 [of "1 + ?ear"] e0 r_eq r12_eq by simp
    then have "principal p * (4 * r) \<le> principal p * r12"
      using v(1) by (intro mult_left_mono) simp_all
    then have "principal p * r \<le> standard_monthly_pmt s / 4" using r12(3) by simp
    moreover have "schedule_payment s key m = Inr (standard_monthly_pmt s / 4)"
      using weekly by (simp add: schedule_payment_def)
    moreover have "0 < standard_monthly_pmt s / 4" using r12(2) by simp
    moreover have "periodic_rate (ear_cached s) m = Inr r" using rL(1) i(3) by simp
    ultimately show ?thesis using rL(2) by blast
  next
    case ordinary
    then have "schedule_payment s key m = Inr L"
      using rL(3) i(2) by (simp add: schedule_payment_def)
    moreover have "periodic_rate (ear_cached s) m = Inr r" using rL(1) i(3) by simp
    ultimately show ?thesis using rL(2,4,5) by blast
  qed
qed

lemma build_ok:
  assumes init: "MortgageSchedule_init p = Inr s"
    and key: "map_of FREQS key = Some (m, label)"
  shows "\<exists>r pay. periodic_rate (ear_cached s) m = Inr r \<and> schedule_payment s key m = Inr pay
           \<and> 0 \<le> r \<and> 0 < pay \<and> principal p * r \<le> pay
           \<and> build_schedule_df s key =
               Inr \<lparr>rows = schedule_loop pay r (principal p) [1..term_years p * m],
                    FrequencyLabel = label, PaymentsPerYear = m\<rparr>"
proof -
  from schedule_payment_ok [OF init key] obtain r pay where
    h: "periodic_rate (ear_cached s) m = Inr r" "schedule_payment s key m = Inr pay"
       "0 \<le> r" "0 < pay" "principal p * r \<le> pay"
    by blast
  have "build_schedule_df s key =
          Inr \<lparr>rows = schedule_loop pay r (principal p) [1..term_years p * m],
               FrequencyLabel = label, PaymentsPerYear = m\<rparr>"
    using key h(1,2) init_Inr(2) [OF init] by (simp add: build_schedule_df_def)
  with h show ?thesis by blast
qed

subsection \<open>The schedule loop\<close>

lemma loop_length: "length (schedule_loop pay r bal ts) \<le> length ts"
  by (induction ts arbitrary: bal) (auto simp add: Let_def)

lemma loop_capped_last:
  "i < length (schedule_loop pay r bal ts) \<Longrightarrow>
   StartBalance (schedule_loop pay r bal ts ! i) < pay - Interest (schedule_loop pay r bal ts ! i) \<Longrightarrow>
     Payment (schedule_loop pay r bal ts ! i)
       = StartBalance (schedule_loop pay r bal ts ! i) + Interest (schedule_loop pay r bal ts ! i)
     \<and> EndBalance (schedule_loop pay r bal ts ! i) = 0
     \<and> Suc i = length (schedule_loop pay r bal ts)"
proof (induction ts arbitrary: bal i)
  case Nil
  then show ?case by simp
next
  case (Cons t ts)
  show ?case
  proof (cases "bal < pay - bal * r")
    case True
    with Cons.prems show ?thesis by (simp add: Let_def)
  next
    case False
    show ?thesis
    proof (cases i)
      case 0
      with False Cons.prems show ?thesis by (simp add: Let_def)
    next
      case (Suc j)
      with False Cons.prems Cons.IH [of j "bal - (pay - bal * r)"] show ?thesis
        by (simp add: Let_def split: if_splits)
    qed
  qed
qed






lemma loop_periods:
  "i < length (schedule_loop pay r bal ts) \<Longrightarrow> Period (schedule_loop pay r bal ts ! i) = ts ! i"
proof (induction ts arbitrary: bal i)
  case Nil
  then show ?case by simp
next
  case (Cons t ts)
  then show ?case by (cases i) (auto simp add: Let_def split: if_splits)
qed

subsection \<open>Evaluating the two concrete loans\<close>

lemma level_payment_zero_rate:
  "0 < a * m \<Longrightarrow> level_payment P 0 a m = Inr (P / of_int (a * m))"
  by (auto simp add: level_payment_def ear_from_semi_annual_quote_def periodic_rate_def
      py_truediv_def py_pow_def pva_def Let_def)

lemma init_zero: "MortgageSchedule_init p_zero = Inr s_zero"
  by (simp add: MortgageSchedule_init_def p_zero_def s_zero_def validate_def
      level_payment_zero_rate ear_from_semi_annual_quote_def)

lemma periodic_rate_zero: "m \<noteq> 0 \<Longrightarrow> periodic_rate 0 m = Inr 0"
  by (simp add: periodic_rate_def py_truediv_def py_pow_def)

lemma build_zero_monthly:
  "build_schedule_df s_zero ''monthly'' =
     Inr \<lparr>rows = rows_zero_monthly, FrequencyLabel = ''Monthly'', PaymentsPerYear = 12\<rparr>"
  by (simp add: build_schedule_df_def FREQS_def s_zero_def p_zero_def periodic_rate_zero
      schedule_payment_def level_payment_zero_rate upto_rec1 mk_row_def Let_def
      rows_zero_monthly_def)

lemma power_root:
  assumes "0 < (x::real)" "0 < k"
  shows "(x ^ k) powr (1 / of_nat k) = x"
proof -
  have "(x ^ k) powr (1 / of_nat k) = (x powr of_nat k) powr (1 / of_nat k)"
    using assms(1) by (simp add: powr_realpow)
  also have "\<dots> = x powr (of_nat k * (1 / of_nat k))" by (rule powr_powr)
  also have "\<dots> = x" using assms by simp
  finally show ?thesis .
qed

lemma big_quote_nonneg: "\<not> big_quote < 0"
  by (simp add: big_quote_def)

lemma ear_big: "ear_from_semi_annual_quote big_quote = big_ear"
  by (simp add: ear_from_semi_annual_quote_def big_quote_def big_ear_def)

lemma periodic_rate_big_12: "periodic_rate big_ear 12 = Inr 8191"
proof -
  have e: "1 + big_ear = 8192 ^ 12" by (simp add: big_ear_def)
  have "(1 + big_ear) powr (1 / 12) = (8192 ^ 12) powr (1 / 12)" by (simp only: e)
  also have "\<dots> = 8192" using power_root [of 8192 12] by simp
  finally have "(1 + big_ear) powr (1 / 12) = 8192" .
  moreover have "0 < 1 + big_ear" by (simp add: big_ear_def)
  ultimately show ?thesis by (simp add: periodic_rate_def py_truediv_def py_pow_def)
qed

lemma periodic_rate_big_26: "periodic_rate big_ear 26 = Inr 63"
proof -
  have e: "1 + big_ear = 64 ^ 26" by (simp add: big_ear_def)
  have "(1 + big_ear) powr (1 / 26) = (64 ^ 26) powr (1 / 26)" by (simp only: e)
  also have "\<dots> = 64" using power_root [of 64 26] by simp
  finally have "(1 + big_ear) powr (1 / 26) = 64" .
  moreover have "0 < 1 + big_ear" by (simp add: big_ear_def)
  ultimately show ?thesis by (simp add: periodic_rate_def py_truediv_def py_pow_def)
qed

lemma pva_big: "pva 8191 12 = Inr (1 / big_pmt)"
  using pva_formula [of 8191 12] by (simp add: power_int_minus_divide big_pmt_def)

lemma level_payment_big: "level_payment 1 big_quote 1 12 = Inr big_pmt"
proof -
  have "py_truediv 1 (1 / big_pmt) = Inr big_pmt"
    by (simp add: py_truediv_def big_pmt_def)
  then show ?thesis
    by (simp add: level_payment_def ear_big periodic_rate_big_12 pva_big)
qed

lemma init_big: "MortgageSchedule_init p_big = Inr s_big"
  by (simp add: MortgageSchedule_init_def p_big_def s_big_def validate_def ear_big
      level_payment_big big_quote_nonneg)

lemma big_pmt_bound: "8191 < big_pmt"
  by (simp add: big_pmt_def)

lemma build_big_rapid_biweekly:
  "build_schedule_df s_big ''rapid_biweekly'' =
     Inr \<lparr>rows = [\<lparr>Period = 1, StartBalance = 1, Interest = 63, Payment = 64, EndBalance = 0\<rparr>],
          FrequencyLabel = ''Rapid Bi-weekly'', PaymentsPerYear = 26\<rparr>"
  using big_pmt_bound
  by (simp add: build_schedule_df_def FREQS_def s_big_def p_big_def periodic_rate_big_26
      schedule_payment_def upto_rec1 Let_def)

subsection \<open>The builder on validated parameters\<close>


lemma term_periods:
  assumes "MortgageSchedule_init p = Inr s" "map_of FREQS key = Some (m, label)"
  shows "0 < term_years p * m" "[1..term_years p * m] \<noteq> []"
    "int (length [1..term_years p * m]) = term_years p * m"
proof -
  from init_Inr(1) [OF assms(1)] have "0 < term_years p" by (simp add: validate_Inr_iff)
  moreover from FREQS_cases [OF assms(2)] have "0 < m" by auto
  ultimately show pos: "0 < term_years p * m" by simp
  then show "[1..term_years p * m] \<noteq> []" by (simp add: upto.simps)
  from pos show "int (length [1..term_years p * m]) = term_years p * m" by simp
qed




lemma key_monthly: "map_of FREQS ''monthly'' = Some (12, ''Monthly'')"
  by (simp add: FREQS_def)

lemma key_rapid_biweekly: "map_of FREQS ''rapid_biweekly'' = Some (26, ''Rapid Bi-weekly'')"
  by (simp add: FREQS_def)





section \<open>The claims\<close>

subsection \<open>Validation\<close>




subsection \<open>The payments\<close>



subsection \<open>The schedule builder\<close>

text \<open>
  Claim C3. For validated parameters and a key of \<open>FREQS\<close>, in every row where the
  scheduled payment minus the interest exceeds the start balance, the recorded payment is
  the start balance plus the interest, the end balance is exactly zero, and the row is
  the last one of the schedule.
\<close>

theorem C3_capped_period_pays_off_and_stops:
  assumes "MortgageSchedule_init p = Inr s" and "map_of FREQS key = Some (m, label)"
  shows "\<exists>df pay. build_schedule_df s key = Inr df \<and> schedule_payment s key m = Inr pay
           \<and> (\<forall>i < length (rows df).
                 StartBalance (rows df ! i) < pay - Interest (rows df ! i) \<longrightarrow>
                   Payment (rows df ! i) = StartBalance (rows df ! i) + Interest (rows df ! i)
                   \<and> EndBalance (rows df ! i) = 0
                   \<and> Suc i = length (rows df))"
proof -
  from build_ok [OF assms] obtain r pay where
    b: "schedule_payment s key m = Inr pay"
       "build_schedule_df s key =
          Inr \<lparr>rows = schedule_loop pay r (principal p) [1..term_years p * m],
               FrequencyLabel = label, PaymentsPerYear = m\<rparr>"
    by blast
  show ?thesis using b loop_capped_last [of _ pay r "principal p" "[1..term_years p * m]"]
    by simp
qed

text \<open>
  The rapid bi-weekly schedule of the second loan: half the monthly payment, less the
  interest of 63, is more than the balance of 1, so the single row is capped.
\<close>

theorem C3_capped_period_witness:
  "MortgageSchedule_init p_big = Inr s_big
   \<and> schedule_payment s_big ''rapid_biweekly'' 26 = Inr (big_pmt / 2)
   \<and> build_schedule_df s_big ''rapid_biweekly'' =
       Inr \<lparr>rows = [\<lparr>Period = 1, StartBalance = 1, Interest = 63, Payment = 64,
                     EndBalance = 0\<rparr>],
            FrequencyLabel = ''Rapid Bi-weekly'', PaymentsPerYear = 26\<rparr>
   \<and> (1 :: real) < big_pmt / 2 - 63
   \<and> (\<exists>df. build_schedule_df s_big ''rapid_biweekly'' = Inr df
         \<and> Payment (rows df ! 0) = StartBalance (rows df ! 0) + Interest (rows df ! 0)
         \<and> EndBalance (rows df ! 0) = 0
         \<and> Suc 0 = length (rows df))"
proof -
  from C3_capped_period_pays_off_and_stops [OF init_big key_rapid_biweekly]
  obtain df pay where
    h: "build_schedule_df s_big ''rapid_biweekly'' = Inr df"
       "schedule_payment s_big ''rapid_biweekly'' 26 = Inr pay"
       "\<forall>i < length (rows df).
          StartBalance (rows df ! i) < pay - Interest (rows df ! i) \<longrightarrow>
            Payment (rows df ! i) = StartBalance (rows df ! i) + Interest (rows df ! i)
            \<and> EndBalance (rows df ! i) = 0
            \<and> Suc i = length (rows df)"
    by blast
  have pay: "schedule_payment s_big ''rapid_biweekly'' 26 = Inr (big_pmt / 2)"
    by (simp add: schedule_payment_def s_big_def)
  with h(2) have pay_eq: "pay = big_pmt / 2" by simp
  have bound: "(1 :: real) < big_pmt / 2 - 63" using big_pmt_bound by simp
  have df: "df = \<lparr>rows = [\<lparr>Period = 1, StartBalance = 1, Interest = 63, Payment = 64,
                              EndBalance = 0\<rparr>],
                     FrequencyLabel = ''Rapid Bi-weekly'', PaymentsPerYear = 26\<rparr>"
    using h(1) by (auto simp add: build_big_rapid_biweekly)
  have len: "0 < length (rows df)" by (simp add: df)
  have "StartBalance (rows df ! 0) < pay - Interest (rows df ! 0)"
    using bound by (simp add: df pay_eq)
  with h(3) len have
    "Payment (rows df ! 0) = StartBalance (rows df ! 0) + Interest (rows df ! 0)
     \<and> EndBalance (rows df ! 0) = 0 \<and> Suc 0 = length (rows df)"
    by blast
  with h(1) pay bound init_big build_big_rapid_biweekly show ?thesis by blast
qed





text \<open>
  Claim C6. For validated parameters and a key of \<open>FREQS\<close> with \<open>m\<close> payments per year,
  the builder returns a schedule, and it has at most \<open>term_years * m\<close> rows.
\<close>

theorem C6_schedule_length_bounded:
  assumes "MortgageSchedule_init p = Inr s" and "map_of FREQS key = Some (m, label)"
  shows "\<exists>df. build_schedule_df s key = Inr df \<and> PaymentsPerYear df = m
           \<and> int (length (rows df)) \<le> term_years p * m"
proof -
  from build_ok [OF assms] obtain r pay where
    b: "build_schedule_df s key =
          Inr \<lparr>rows = schedule_loop pay r (principal p) [1..term_years p * m],
               FrequencyLabel = label, PaymentsPerYear = m\<rparr>"
    by blast
  have "int (length (schedule_loop pay r (principal p) [1..term_years p * m]))
          \<le> int (length [1..term_years p * m])"
    using loop_length [of pay r "principal p" "[1..term_years p * m]"]
    by (simp only: of_nat_le_iff)
  also have "\<dots> = term_years p * m" by (rule term_periods(3) [OF assms])
  finally show ?thesis using b by simp
qed

text \<open>Twelve rows for a term of one year paid monthly.\<close>

theorem C6_schedule_length_witness:
  "MortgageSchedule_init p_zero = Inr s_zero
   \<and> build_schedule_df s_zero ''monthly'' =
       Inr \<lparr>rows = rows_zero_monthly, FrequencyLabel = ''Monthly'', PaymentsPerYear = 12\<rparr>
   \<and> length rows_zero_monthly = 12
   \<and> int (length rows_zero_monthly) \<le> term_years p_zero * 12"
  using C6_schedule_length_bounded [OF init_zero key_monthly]
  by (simp add: init_zero build_zero_monthly rows_zero_monthly_def)



subsection \<open>The rate conversion and the annuity factor\<close>






subsection \<open>The rows of a schedule\<close>



end
